theory Spec2Isabelle
  imports Main
begin

section \<open>MathLogicEvaluator: an infix expression evaluator (src/main.cpp)\<close>

text \<open>
  The class \<open>MathLogicEvaluator\<close> has one data member, the map \<open>operatorPrecedence\<close>,
  and the member functions \<open>tokenizeExpression\<close>, \<open>validateTokenSequence\<close>,
  \<open>convertToPostfix\<close>, \<open>evaluatePostfixExpression\<close> and \<open>evaluate\<close>. The map is the
  only state that outlives a call, so every function that touches it takes it as an
  argument, and the one function that can write to it (\<open>convertToPostfix\<close>, through
  \<open>operator[]\<close>) returns it as well.
\<close>

subsection \<open>Outcomes\<close>

text \<open>
  A call ends by returning, by throwing \<open>ExpressionError\<close> with a message, by
  \<open>std::stoi\<close> throwing \<open>std::out_of_range\<close> or \<open>std::invalid_argument\<close>, or in an
  operation on \<open>int\<close> for which C++ defines no behaviour (signed overflow, \<open>%\<close> by zero,
  a \<open>double\<close> converted to \<open>int\<close> out of range).
\<close>

datatype error =
    ExpressionError string
  | StdOutOfRange
  | StdInvalidArgument
  | UndefinedBehaviour

type_synonym table = "string \<rightharpoonup> int"

subsection \<open>Characters, the 32-bit \<open>int\<close>, and the library functions used\<close>

text \<open>
  \<open>isspace\<close> and \<open>isdigit\<close> of \<open><cctype>\<close> in the "C" locale: the six whitespace
  characters and the ten decimal digits. A \<open>char\<close> outside ASCII is neither.
\<close>

definition isspace :: "char \<Rightarrow> bool" where
  "isspace c = (c \<in> set [CHR '' '', CHR 0x09, CHR 0x0A, CHR 0x0B, CHR 0x0C, CHR 0x0D])"

definition isdigit :: "char \<Rightarrow> bool" where
  "isdigit c = (c \<in> set ''0123456789'')"

text \<open>\<open>s[0]\<close> on a \<open>std::string\<close>: the terminating null character when \<open>s\<close> is empty.\<close>

definition first_char :: "string \<Rightarrow> char" where
  "first_char s = (case s of [] \<Rightarrow> CHR 0x00 | c # _ \<Rightarrow> c)"

definition INT_MAX :: int where
  "INT_MAX = 2147483647"

definition INT_MIN :: int where
  "INT_MIN = - 2147483648"

text \<open>The result of an \<open>int\<close> operation whose mathematical value is \<open>v\<close>.\<close>

definition int_result :: "int \<Rightarrow> error + int" where
  "int_result v = (if INT_MIN \<le> v \<and> v \<le> INT_MAX then Inr v else Inl UndefinedBehaviour)"

text \<open>C++ integer division truncates towards zero; HOL's \<open>div\<close> rounds down.\<close>

definition cpp_div :: "int \<Rightarrow> int \<Rightarrow> int" where
  "cpp_div a b = sgn a * sgn b * (\<bar>a\<bar> div \<bar>b\<bar>)"

definition cpp_mod :: "int \<Rightarrow> int \<Rightarrow> int" where
  "cpp_mod a b = a - cpp_div a b * b"

definition digit_value :: "char \<Rightarrow> int" where
  "digit_value c = int (of_char c) - 48"

definition decimal_value :: "string \<Rightarrow> int" where
  "decimal_value ds = foldl (\<lambda>a c. 10 * a + digit_value c) 0 ds"

text \<open>
  \<open>std::stoi(s)\<close> in base 10: leading whitespace is skipped, one sign is accepted, the
  longest run of digits is read and the rest of the string is ignored. No digits:
  \<open>std::invalid_argument\<close>; a value that is not an \<open>int\<close>: \<open>std::out_of_range\<close>.
\<close>

definition stoi :: "string \<Rightarrow> error + int" where
  "stoi s =
     (let s1 = dropWhile isspace s;
          negative = (s1 \<noteq> [] \<and> hd s1 = CHR ''-'');
          s2 = (if s1 \<noteq> [] \<and> (hd s1 = CHR ''-'' \<or> hd s1 = CHR ''+'') then tl s1 else s1);
          ds = takeWhile isdigit s2;
          v = (if negative then - decimal_value ds else decimal_value ds)
      in if ds = [] then Inl StdInvalidArgument
         else if INT_MIN \<le> v \<and> v \<le> INT_MAX then Inr v
         else Inl StdOutOfRange)"

definition digit_char :: "nat \<Rightarrow> char" where
  "digit_char d = char_of (48 + d)"

text \<open>\<open>std::to_string\<close> on a \<open>size_t\<close>: the decimal numeral.\<close>

function to_string :: "nat \<Rightarrow> string" where
  "to_string n = (if n < 10 then [digit_char n] else to_string (n div 10) @ [digit_char (n mod 10)])"
  by pat_completeness auto
termination
  by (relation "measure id") auto

declare to_string.simps [simp del]

text \<open>
  \<open>int r = pow(left, right)\<close>: both operands become \<open>double\<close>, the power is computed in
  \<open>double\<close> and converted back to \<open>int\<close> by truncation. Every \<open>int\<close> is a \<open>double\<close>, so
  whenever the exact power is an \<open>int\<close> it is representable, and the model takes \<open>pow\<close> to
  return it exactly there. An exact power outside \<open>int\<close> rounds to a \<open>double\<close> outside
  \<open>int\<close>, whose conversion is undefined. For a negative exponent the power of a base
  other than \<open>0\<close>, \<open>1\<close>, \<open>-1\<close> lies strictly between \<open>-1\<close> and \<open>1\<close> and truncates to \<open>0\<close>;
  \<open>pow(0, right)\<close> is infinite there.
\<close>

definition pow_int :: "int \<Rightarrow> int \<Rightarrow> error + int" where
  "pow_int left right =
     (if 0 \<le> right then int_result (left ^ nat right)
      else if left = 0 then Inl UndefinedBehaviour
      else if left = 1 then Inr 1
      else if left = - 1 then Inr (if even right then 1 else - 1)
      else Inr 0)"

subsection \<open>The operator table\<close>

definition operatorPrecedence :: table where
  "operatorPrecedence = map_of
     [(''||'', 1), (''&&'', 2), (''=='', 3), (''!='', 3),
      (''>'', 4), (''>='', 4), (''<'', 4), (''<='', 4),
      (''+'', 5), (''-'', 5),
      (''*'', 6), (''/'', 6), (''%'', 6),
      (''^'', 7),
      (''!'', 8), (''++'', 8), (''--'', 8), (''neg'', 8)]"

text \<open>\<open>operatorPrecedence.count(k)\<close> is \<open>1\<close> or \<open>0\<close>; the code only tests it for truth.\<close>

definition count :: "table \<Rightarrow> string \<Rightarrow> bool" where
  "count T k = (T k \<noteq> None)"

text \<open>
  \<open>operatorPrecedence[k]\<close>: \<open>std::unordered_map::operator[]\<close> returns the value stored
  under \<open>k\<close>, and when there is none it first inserts \<open>k\<close> with the value \<open>0\<close>.
\<close>

definition subscript_value :: "table \<Rightarrow> string \<Rightarrow> int" where
  "subscript_value T k = (case T k of None \<Rightarrow> 0 | Some v \<Rightarrow> v)"

definition subscript_table :: "table \<Rightarrow> string \<Rightarrow> table" where
  "subscript_table T k = (case T k of None \<Rightarrow> T(k \<mapsto> 0) | Some v \<Rightarrow> T)"

definition isRightAssociative :: "string \<Rightarrow> bool" where
  "isRightAssociative op =
     (op = ''^'' \<or> op = ''!'' \<or> op = ''++'' \<or> op = ''--'' \<or> op = ''neg'')"

definition isUnaryOperator :: "string \<Rightarrow> bool" where
  "isUnaryOperator op = (op = ''!'' \<or> op = ''++'' \<or> op = ''--'' \<or> op = ''neg'')"

subsection \<open>tokenizeExpression\<close>

text \<open>
  The \<open>for\<close> loop over the index \<open>i\<close>, as a function of the characters from \<open>i\<close> on and
  of the tokens pushed so far.
\<close>

function tokenize_from :: "table \<Rightarrow> string \<Rightarrow> string list \<Rightarrow> string list" where
  "tokenize_from T [] tokens = tokens"
| "tokenize_from T (c # cs) tokens =
     (if isspace c then tokenize_from T cs tokens
      else if isdigit c then
        tokenize_from T (dropWhile isdigit cs) (tokens @ [c # takeWhile isdigit cs])
      else if cs \<noteq> [] \<and> count T [c, hd cs] then
        tokenize_from T (tl cs) (tokens @ [[c, hd cs]])
      else if [c] = ''-'' \<and> (tokens = [] \<or> last tokens = ''('' \<or> count T (last tokens)) then
        tokenize_from T cs (tokens @ [''neg''])
      else tokenize_from T cs (tokens @ [[c]]))"
  by pat_completeness auto
termination
  by (relation "measure (\<lambda>(T, s, tokens). length s)")
     (auto simp: length_dropWhile_le less_Suc_eq_le)

declare tokenize_from.simps(2) [simp del]

definition tokenizeExpression :: "table \<Rightarrow> string \<Rightarrow> string list" where
  "tokenizeExpression T expr = tokenize_from T expr []"

subsection \<open>validateTokenSequence\<close>

text \<open>The five checks of the loop body at index \<open>i\<close>, in the order of the source.\<close>

definition validate_at :: "table \<Rightarrow> string list \<Rightarrow> nat \<Rightarrow> error option" where
  "validate_at T tokens i =
     (let token = tokens ! i;
          prev = (if i > 0 then tokens ! (i - 1) else []);
          next = (if i + 1 < length tokens then tokens ! (i + 1) else [])
      in if token = '')'' \<and> i = 0 then
           Some (ExpressionError ''Expression can't start with a closing parenthesis @ char: 0'')
         else if count T token \<and> \<not> isUnaryOperator token \<and> i = 0 then
           Some (ExpressionError ''Expression can't start with a binary operator @ char: 0'')
         else if count T token \<and> \<not> isUnaryOperator token \<and>
                 count T prev \<and> \<not> isUnaryOperator prev then
           Some (ExpressionError (''Two binary operators in a row @ char: '' @ to_string i))
         else if isdigit (first_char token) \<and> prev \<noteq> [] \<and> isdigit (first_char prev) then
           Some (ExpressionError (''Two operands in a row @ char: '' @ to_string i))
         else if isUnaryOperator token \<and> next \<noteq> [] \<and> count T next \<and> \<not> isUnaryOperator next then
           Some (ExpressionError (''A unary operand can'' @ [CHR 0xE2, CHR 0x80, CHR 0x99] @
                   ''t be followed by a binary operator @ char: '' @ to_string (i + 1)))
         else None)"

function validate_from :: "table \<Rightarrow> string list \<Rightarrow> nat \<Rightarrow> error + unit" where
  "validate_from T tokens i =
     (if i < length tokens then
        (case validate_at T tokens i of
           Some e \<Rightarrow> Inl e
         | None \<Rightarrow> validate_from T tokens (i + 1))
      else Inr ())"
  by pat_completeness auto
termination
  by (relation "measure (\<lambda>(T, tokens, i). length tokens - i)") auto

declare validate_from.simps [simp del]

definition validateTokenSequence :: "table \<Rightarrow> string list \<Rightarrow> error + unit" where
  "validateTokenSequence T tokens = validate_from T tokens 0"

subsection \<open>convertToPostfix\<close>

text \<open>
  The stack \<open>operators\<close> is a list whose head is the top. The three \<open>while\<close> loops are
  \<open>pop_until_paren\<close> (lines 150 to 153), \<open>pop_operators\<close> (lines 156 to 161, which
  evaluates \<open>operatorPrecedence[token]\<close> and \<open>operatorPrecedence[operators.top()]\<close> once
  per test that reaches the comparison) and \<open>pop_remaining\<close> (lines 167 to 170).
\<close>

fun pop_until_paren :: "string list \<Rightarrow> string list \<Rightarrow> string list \<times> string list" where
  "pop_until_paren [] output = ([], output)"
| "pop_until_paren (t # operators) output =
     (if t \<noteq> ''('' then pop_until_paren operators (output @ [t])
      else (t # operators, output))"

fun pop_operators ::
  "table \<Rightarrow> string \<Rightarrow> string list \<Rightarrow> string list \<Rightarrow> table \<times> string list \<times> string list" where
  "pop_operators T token [] output = (T, [], output)"
| "pop_operators T token (t # operators) output =
     (if t \<noteq> ''('' then
        (let p = subscript_value T token;
             T1 = subscript_table T token;
             q = subscript_value T1 t;
             T2 = subscript_table T1 t
         in if (isRightAssociative token \<and> p < q) \<or> (\<not> isRightAssociative token \<and> p \<le> q)
            then pop_operators T2 token operators (output @ [t])
            else (T2, t # operators, output))
      else (T, t # operators, output))"

fun pop_remaining :: "string list \<Rightarrow> string list \<Rightarrow> string list" where
  "pop_remaining [] output = output"
| "pop_remaining (t # operators) output = pop_remaining operators (output @ [t])"

fun convert_loop ::
  "table \<Rightarrow> string list \<Rightarrow> string list \<Rightarrow> string list \<Rightarrow> table \<times> string list \<times> string list" where
  "convert_loop T [] operators output = (T, operators, output)"
| "convert_loop T (token # rest) operators output =
     (if isdigit (first_char token) then convert_loop T rest operators (output @ [token])
      else if token = ''('' then convert_loop T rest (token # operators) output
      else if token = '')'' then
        (let r = pop_until_paren operators output
         in convert_loop T rest (case fst r of [] \<Rightarrow> [] | t # below \<Rightarrow> below) (snd r))
      else
        (let r = pop_operators T token operators output
         in convert_loop (fst r) rest (token # fst (snd r)) (snd (snd r))))"

definition convertToPostfix :: "table \<Rightarrow> string list \<Rightarrow> table \<times> string list" where
  "convertToPostfix T tokens =
     (let r = convert_loop T tokens [] []
      in (fst r, pop_remaining (fst (snd r)) (snd (snd r))))"

subsection \<open>Operators on values\<close>

definition calculateBinaryOperation :: "string \<Rightarrow> int \<Rightarrow> int \<Rightarrow> error + int" where
  "calculateBinaryOperation op left right =
     (if op = ''+'' then int_result (left + right)
      else if op = ''-'' then int_result (left - right)
      else if op = ''*'' then int_result (left * right)
      else if op = ''/'' then
        (if right = 0 then Inl (ExpressionError ''Division by zero'')
         else int_result (cpp_div left right))
      else if op = ''%'' then
        (if right = 0 \<or> (left = INT_MIN \<and> right = - 1) then Inl UndefinedBehaviour
         else Inr (cpp_mod left right))
      else if op = ''^'' then pow_int left right
      else if op = ''=='' then Inr (if left = right then 1 else 0)
      else if op = ''!='' then Inr (if left \<noteq> right then 1 else 0)
      else if op = ''>'' then Inr (if left > right then 1 else 0)
      else if op = ''<'' then Inr (if left < right then 1 else 0)
      else if op = ''>='' then Inr (if left \<ge> right then 1 else 0)
      else if op = ''<='' then Inr (if left \<le> right then 1 else 0)
      else if op = ''&&'' then Inr (if left \<noteq> 0 \<and> right \<noteq> 0 then 1 else 0)
      else if op = ''||'' then Inr (if left \<noteq> 0 \<or> right \<noteq> 0 then 1 else 0)
      else Inl (ExpressionError (''Unknown binary operator: '' @ op)))"

definition calculateUnaryOperation :: "string \<Rightarrow> int \<Rightarrow> error + int" where
  "calculateUnaryOperation op operand =
     (if op = ''!'' then Inr (if operand = 0 then 1 else 0)
      else if op = ''++'' then int_result (operand + 1)
      else if op = ''--'' then int_result (operand - 1)
      else if op = ''neg'' then int_result (- operand)
      else Inl (ExpressionError (''Unknown unary operator: '' @ op)))"

subsection \<open>evaluatePostfixExpression\<close>

text \<open>The stack \<open>values\<close> is a list whose head is the top.\<close>

fun evaluate_loop :: "string list \<Rightarrow> int list \<Rightarrow> error + int list" where
  "evaluate_loop [] values = Inr values"
| "evaluate_loop (token # rest) values =
     (if isdigit (first_char token) then
        (case stoi token of
           Inl e \<Rightarrow> Inl e
         | Inr v \<Rightarrow> evaluate_loop rest (v # values))
      else if isUnaryOperator token then
        (case values of
           [] \<Rightarrow> Inl (ExpressionError ''Missing operand for unary operator'')
         | operand # below \<Rightarrow>
             (case calculateUnaryOperation token operand of
                Inl e \<Rightarrow> Inl e
              | Inr v \<Rightarrow> evaluate_loop rest (v # below)))
      else
        (case values of
           right # left # below \<Rightarrow>
             (case calculateBinaryOperation token left right of
                Inl e \<Rightarrow> Inl e
              | Inr v \<Rightarrow> evaluate_loop rest (v # below))
         | _ \<Rightarrow> Inl (ExpressionError ''Missing operands for binary operator'')))"

definition evaluatePostfixExpression :: "string list \<Rightarrow> error + int" where
  "evaluatePostfixExpression postfix =
     (case evaluate_loop postfix [] of
        Inl e \<Rightarrow> Inl e
      | Inr values \<Rightarrow>
          (case values of
             [v] \<Rightarrow> Inr v
           | _ \<Rightarrow> Inl (ExpressionError ''Expression evaluation error: leftover operands'')))"

subsection \<open>evaluate\<close>

text \<open>
  One call of \<open>evaluate\<close> on an evaluator whose table is \<open>T\<close>: the table the evaluator
  holds afterwards, and the outcome of the call.
\<close>

definition evaluate :: "table \<Rightarrow> string \<Rightarrow> table \<times> (error + int)" where
  "evaluate T expression =
     (let tokens = tokenizeExpression T expression
      in case validateTokenSequence T tokens of
           Inl e \<Rightarrow> (T, Inl e)
         | Inr u \<Rightarrow>
             (let r = convertToPostfix T tokens
              in (fst r, evaluatePostfixExpression (snd r))))"

subsection \<open>Notions used to state the properties\<close>

text \<open>
  The test of the operator loop of \<open>convertToPostfix\<close>, as the specification words it:
  the operator \<open>t\<close> on top of the stack is popped for the incoming operator \<open>token\<close> when
  it is not a left parenthesis and the precedence of \<open>token\<close> is lower (right-associative
  \<open>token\<close>) or not higher (left-associative \<open>token\<close>). A symbol without an entry has the
  precedence \<open>0\<close>.
\<close>

definition pops :: "table \<Rightarrow> string \<Rightarrow> string \<Rightarrow> bool" where
  "pops T token t =
     (t \<noteq> ''('' \<and>
      (if isRightAssociative token then subscript_value T token < subscript_value T t
       else subscript_value T token \<le> subscript_value T t))"

text \<open>
  The tokens pushed so far put the tokenizer where a value is expected next: there is no
  token yet, or the last one is a left parenthesis or a symbol of the table.
\<close>

definition value_expected :: "table \<Rightarrow> string list \<Rightarrow> bool" where
  "value_expected T tokens = (tokens = [] \<or> last tokens = ''('' \<or> count T (last tokens))"

text \<open>
  Every \<open>neg\<close> among \<open>tokens\<close> stands where a value is expected and no \<open>-\<close> does;
  \<open>before\<close> are the tokens that precede them.
\<close>

fun minus_resolved :: "table \<Rightarrow> string list \<Rightarrow> string list \<Rightarrow> bool" where
  "minus_resolved T before [] = True"
| "minus_resolved T before (t # tokens) =
     ((if t = ''neg'' then value_expected T before
       else if t = ''-'' then \<not> value_expected T before
       else True) \<and>
      minus_resolved T (before @ [t]) tokens)"

text \<open>The five shapes that the specification has the validator reject, at position \<open>i\<close>.\<close>

definition is_binary :: "table \<Rightarrow> string \<Rightarrow> bool" where
  "is_binary T t = (count T t \<and> \<not> isUnaryOperator t)"

definition is_number :: "string \<Rightarrow> bool" where
  "is_number t = isdigit (first_char t)"

definition violation :: "table \<Rightarrow> string list \<Rightarrow> nat \<Rightarrow> bool" where
  "violation T tokens i =
     ((i = 0 \<and> tokens ! i = '')'') \<or>
      (i = 0 \<and> is_binary T (tokens ! i)) \<or>
      (0 < i \<and> is_binary T (tokens ! i) \<and> is_binary T (tokens ! (i - 1))) \<or>
      (0 < i \<and> is_number (tokens ! i) \<and> is_number (tokens ! (i - 1))) \<or>
      (i + 1 < length tokens \<and> isUnaryOperator (tokens ! i) \<and> is_binary T (tokens ! (i + 1))))"

text \<open>
  The well-formed expressions over unsigned integer literals, the binary operators
  \<open>+ - * /\<close>, parentheses and whitespace, as syntax trees that keep the written form: a
  literal is a run of digits with whitespace around it, a parenthesised expression has
  whitespace around its parentheses, and a binary node writes its operator between its
  operands. \<open>render\<close> is the text of a tree.
\<close>

datatype arith_op = OpAdd | OpSub | OpMul | OpDiv

datatype expression =
    Literal string string string
  | Parens string expression string
  | Binary expression arith_op expression

fun op_symbol :: "arith_op \<Rightarrow> string" where
  "op_symbol OpAdd = ''+''"
| "op_symbol OpSub = ''-''"
| "op_symbol OpMul = ''*''"
| "op_symbol OpDiv = ''/''"

fun render :: "expression \<Rightarrow> string" where
  "render (Literal w1 ds w2) = w1 @ ds @ w2"
| "render (Parens w1 e w2) = w1 @ ''('' @ render e @ '')'' @ w2"
| "render (Binary a op b) = render a @ op_symbol op @ render b"

text \<open>
  A tree is the reading of its text under the standard grammar when the operands of
  every binary node bind at least as tightly as its operator on the left and strictly
  tighter on the right: \<open>*\<close> and \<open>/\<close> before \<open>+\<close> and \<open>-\<close>, and operators of one level
  from left to right.
\<close>

fun op_level :: "arith_op \<Rightarrow> nat" where
  "op_level OpAdd = 1"
| "op_level OpSub = 1"
| "op_level OpMul = 2"
| "op_level OpDiv = 2"

fun binding :: "expression \<Rightarrow> nat" where
  "binding (Literal w1 ds w2) = 3"
| "binding (Parens w1 e w2) = 3"
| "binding (Binary a op b) = op_level op"

fun well_formed :: "expression \<Rightarrow> bool" where
  "well_formed (Literal w1 ds w2) =
     (list_all isspace w1 \<and> ds \<noteq> [] \<and> list_all isdigit ds \<and> list_all isspace w2)"
| "well_formed (Parens w1 e w2) = (list_all isspace w1 \<and> well_formed e \<and> list_all isspace w2)"
| "well_formed (Binary a op b) =
     (well_formed a \<and> well_formed b \<and> op_level op \<le> binding a \<and> op_level op < binding b)"

text \<open>
  The value of a tree in the integers: a literal denotes its decimal number (the lowest
  digit is the last one), division truncates towards zero and has no value when the
  divisor is \<open>0\<close>.
\<close>

fun digits_value :: "string \<Rightarrow> int" where
  "digits_value [] = 0"
| "digits_value (d # lower_first) = digit_value d + 10 * digits_value lower_first"

definition number :: "string \<Rightarrow> int" where
  "number ds = digits_value (rev ds)"

definition truncated_quotient :: "int \<Rightarrow> int \<Rightarrow> int" where
  "truncated_quotient x y =
     (if (x < 0) = (y < 0) then \<bar>x\<bar> div \<bar>y\<bar> else - (\<bar>x\<bar> div \<bar>y\<bar>))"

fun apply_op :: "arith_op \<Rightarrow> int \<Rightarrow> int \<Rightarrow> int option" where
  "apply_op OpAdd x y = Some (x + y)"
| "apply_op OpSub x y = Some (x - y)"
| "apply_op OpMul x y = Some (x * y)"
| "apply_op OpDiv x y = (if y = 0 then None else Some (truncated_quotient x y))"

fun standard_value :: "expression \<Rightarrow> int option" where
  "standard_value (Literal w1 ds w2) = Some (number ds)"
| "standard_value (Parens w1 e w2) = standard_value e"
| "standard_value (Binary a op b) =
     (case standard_value a of
        None \<Rightarrow> None
      | Some x \<Rightarrow> (case standard_value b of None \<Rightarrow> None | Some y \<Rightarrow> apply_op op x y))"

text \<open>Every literal and every intermediate value of the tree is an \<open>int\<close>.\<close>

definition is_int :: "int option \<Rightarrow> bool" where
  "is_int r = (case r of None \<Rightarrow> True | Some v \<Rightarrow> INT_MIN \<le> v \<and> v \<le> INT_MAX)"

fun within_int :: "expression \<Rightarrow> bool" where
  "within_int (Literal w1 ds w2) = is_int (Some (number ds))"
| "within_int (Parens w1 e w2) = within_int e"
| "within_int (Binary a op b) =
     (within_int a \<and> within_int b \<and> is_int (standard_value (Binary a op b)))"

text \<open>
  The token sequence and the postfix sequence of a tree, and the tree evaluated node by
  node with the operations of the code: left operand, right operand, operator.
\<close>

fun tokens_of :: "expression \<Rightarrow> string list" where
  "tokens_of (Literal w1 ds w2) = [ds]"
| "tokens_of (Parens w1 e w2) = ''('' # tokens_of e @ ['')'']"
| "tokens_of (Binary a op b) = tokens_of a @ op_symbol op # tokens_of b"

fun postfix_of :: "expression \<Rightarrow> string list" where
  "postfix_of (Literal w1 ds w2) = [ds]"
| "postfix_of (Parens w1 e w2) = postfix_of e"
| "postfix_of (Binary a op b) = postfix_of a @ postfix_of b @ [op_symbol op]"

fun outcome :: "expression \<Rightarrow> error + int" where
  "outcome (Literal w1 ds w2) = stoi ds"
| "outcome (Parens w1 e w2) = outcome e"
| "outcome (Binary a op b) =
     (case outcome a of
        Inl err \<Rightarrow> Inl err
      | Inr x \<Rightarrow>
          (case outcome b of
             Inl err \<Rightarrow> Inl err
           | Inr y \<Rightarrow> calculateBinaryOperation (op_symbol op) x y))"

text \<open>
  What holds of the stack while the converter reads an operand that binds at level \<open>k\<close>:
  no operator of level \<open>k\<close> or above would pop its top.
\<close>

definition ready :: "nat \<Rightarrow> string list \<Rightarrow> bool" where
  "ready k operators =
     (case operators of
        [] \<Rightarrow> True
      | t # below \<Rightarrow> list_all (\<lambda>op. op_level op < k \<or> \<not> pops operatorPrecedence (op_symbol op) t)
                     [OpAdd, OpSub, OpMul, OpDiv])"

text \<open>A pair of neighbouring tokens that none of the validator's checks rejects.\<close>

definition neighbours_ok :: "table \<Rightarrow> string \<Rightarrow> string \<Rightarrow> bool" where
  "neighbours_ok T p t =
     (\<not> (is_binary T t \<and> is_binary T p) \<and> \<not> (is_number t \<and> is_number p) \<and>
      \<not> (isUnaryOperator p \<and> is_binary T t))"

section \<open>Properties\<close>

subsection \<open>Basic facts about the loops\<close>

lemma tokenize_from_whitespace:
  "\<forall>c \<in> set s. isspace c \<Longrightarrow> tokenize_from T s tokens = tokens"
  by (induction s) (simp_all add: tokenize_from.simps(2))

lemma validate_from_Nil: "validate_from T [] 0 = Inr ()"
  by (simp add: validate_from.simps)

lemma convertToPostfix_Nil: "convertToPostfix T [] = (T, [])"
  by (simp add: convertToPostfix_def)

subsection \<open>The operator table across calls\<close>

text \<open>
  Claim C1 says that \<open>evaluate\<close> leaves the entries of the operator table unchanged for
  every input, also when the input has symbols that are not in the table. The code does
  not: on \<open>"1 + 2 @ 3"\<close> the converter compares \<open>operatorPrecedence["@"]\<close> with
  \<open>operatorPrecedence["+"]\<close>, and \<open>operator[]\<close> inserts the missing key \<open>"@"\<close> with the
  value \<open>0\<close>. The table after the call has an entry that the initial table lacks.
\<close>

theorem evaluate_table_insertion:
  "operatorPrecedence ''@'' = None \<and>
   fst (evaluate operatorPrecedence ''1 + 2 @ 3'') ''@'' = Some 0"
  by code_simp

text \<open>
  Claim C3 says that repeated calls of \<open>evaluate\<close> on the same string give the same
  outcome. On \<open>"1 + 2 @ - 3"\<close> the first call tokenizes the minus sign as the binary
  \<open>"-"\<close> (the token before it, \<open>"@"\<close>, is not in the table) and fails with
  \<open>"Missing operands for binary operator"\<close>; it leaves \<open>"@"\<close> in the table, so the second
  call tokenizes the same minus sign as \<open>"neg"\<close> and fails with
  \<open>"Unknown binary operator: @"\<close>.
\<close>

theorem evaluate_repeated_differs:
  "snd (evaluate operatorPrecedence ''1 + 2 @ - 3'') =
     Inl (ExpressionError ''Missing operands for binary operator'') \<and>
   snd (evaluate (fst (evaluate operatorPrecedence ''1 + 2 @ - 3'')) ''1 + 2 @ - 3'') =
     Inl (ExpressionError ''Unknown binary operator: @'')"
  by code_simp

subsection \<open>Two minus signs\<close>

text \<open>
  Claim C2 says that \<open>"--3"\<close> is tokenized as two unary negations applied to \<open>3\<close>. The
  tokenizer tries a two-character operator first, and \<open>"--"\<close> is in the table, so the
  token sequence is not \<open>neg, neg, 3\<close>.
\<close>

theorem tokenize_double_minus_counterexample:
  "tokenizeExpression operatorPrecedence ''--3'' \<noteq> [''neg'', ''neg'', ''3'']"
  by code_simp

text \<open>
  Claim C2 as amended: \<open>"--3"\<close> is tokenized as the single two-character operator \<open>"--"\<close>
  followed by \<open>3\<close>, and evaluates to \<open>2\<close>; two consecutive unary negations are what the
  tokenizer produces when the minus signs are apart, as in \<open>"- -3"\<close>.
\<close>

theorem tokenize_double_minus:
  "tokenizeExpression operatorPrecedence ''--3'' = [''--'', ''3''] \<and>
   snd (evaluate operatorPrecedence ''--3'') = Inr 2 \<and>
   tokenizeExpression operatorPrecedence ''- -3'' = [''neg'', ''neg'', ''3'']"
  by code_simp

subsection \<open>Blank input\<close>

text \<open>
  Claim C10: for an input that is empty or has only whitespace, the token sequence is
  empty, validation passes, and \<open>evaluate\<close> fails with the "leftover operands"
  \<open>ExpressionError\<close>, whatever the table holds; the table is left as it was.
\<close>

theorem evaluate_blank:
  assumes "\<forall>c \<in> set s. isspace c"
  shows "tokenizeExpression T s = [] \<and>
         validateTokenSequence T (tokenizeExpression T s) = Inr () \<and>
         evaluate T s =
           (T, Inl (ExpressionError ''Expression evaluation error: leftover operands''))"
proof -
  have tok: "tokenizeExpression T s = []"
    using assms by (simp add: tokenizeExpression_def tokenize_from_whitespace)
  have val: "validateTokenSequence T [] = Inr ()"
    by (simp add: validateTokenSequence_def validate_from_Nil)
  have ev: "evaluatePostfixExpression [] =
      Inl (ExpressionError ''Expression evaluation error: leftover operands'')"
    by (simp add: evaluatePostfixExpression_def)
  show ?thesis
    by (simp add: evaluate_def tok val convertToPostfix_Nil ev)
qed

theorem evaluate_blank_witness:
  "isspace (CHR '' '') \<and> isspace (CHR 0x09) \<and>
   evaluate operatorPrecedence [CHR '' '', CHR 0x09] =
     (operatorPrecedence, Inl (ExpressionError ''Expression evaluation error: leftover operands''))"
  using evaluate_blank [of "[CHR '' '', CHR 0x09]" operatorPrecedence]
  by (simp add: isspace_def)

subsection \<open>Division\<close>

text \<open>
  \<open>cpp_div\<close> is the quotient truncated towards zero: it is the one integer \<open>q\<close> whose
  product with the divisor is no larger in magnitude than the dividend and misses it by
  less than the magnitude of the divisor.
\<close>

lemma cpp_div_times:
  "cpp_div a b * b = sgn a * ((\<bar>a\<bar> div \<bar>b\<bar>) * \<bar>b\<bar>)"
proof -
  have "sgn b * b = \<bar>b\<bar>" by (simp add: abs_sgn mult.commute)
  then show ?thesis
    by (simp add: cpp_div_def mult.assoc mult.left_commute)
qed

lemma cpp_div_truncates:
  assumes "b \<noteq> 0"
  shows "\<bar>cpp_div a b * b\<bar> \<le> \<bar>a\<bar> \<and> \<bar>a - cpp_div a b * b\<bar> < \<bar>b\<bar>"
proof -
  define x where "x = (\<bar>a\<bar> div \<bar>b\<bar>) * \<bar>b\<bar>"
  have pos: "0 < \<bar>b\<bar>" using assms by simp
  have eq: "x + \<bar>a\<bar> mod \<bar>b\<bar> = \<bar>a\<bar>" by (simp add: x_def)
  have m0: "0 \<le> \<bar>a\<bar> mod \<bar>b\<bar>" using pos by (rule pos_mod_sign)
  have m1: "\<bar>a\<bar> mod \<bar>b\<bar> < \<bar>b\<bar>" using pos by (rule pos_mod_bound)
  have x0: "0 \<le> x" unfolding x_def using pos by (simp add: pos_imp_zdiv_nonneg_iff)
  have t: "cpp_div a b * b = sgn a * x" by (simp add: cpp_div_times x_def)
  consider "a = 0" | "0 < a" | "a < 0" by linarith
  then show ?thesis
  proof cases
    case 1
    then show ?thesis using pos t by simp
  next
    case 2
    then show ?thesis using t eq m0 m1 x0 by simp
  next
    case 3
    then show ?thesis using t eq m0 m1 x0 by simp
  qed
qed

lemma cpp_div_abs_le: "\<bar>cpp_div a b\<bar> \<le> \<bar>a\<bar> div \<bar>b\<bar>"
proof -
  define d where "d = \<bar>a\<bar> div \<bar>b\<bar>"
  have d0: "0 \<le> d"
    unfolding d_def by (cases "b = 0") (simp_all add: pos_imp_zdiv_nonneg_iff)
  have "\<bar>cpp_div a b\<bar> = \<bar>sgn a\<bar> * \<bar>sgn b\<bar> * d"
    using d0 by (simp add: cpp_div_def abs_mult d_def)
  also have "\<dots> \<le> d"
    using d0 by (cases "a = 0"; cases "b = 0") (simp_all add: abs_sgn_eq)
  finally show ?thesis by (simp add: d_def)
qed

lemma cpp_div_in_range:
  assumes "INT_MIN \<le> a" "a \<le> INT_MAX" "b \<noteq> 0" "\<not> (a = INT_MIN \<and> b = - 1)"
  shows "INT_MIN \<le> cpp_div a b \<and> cpp_div a b \<le> INT_MAX"
proof (cases "\<bar>b\<bar> = 1")
  case True
  then consider "b = 1" | "b = - 1" by linarith
  then show ?thesis
  proof cases
    case 1
    then show ?thesis using assms by (simp add: cpp_div_def mult_sgn_abs)
  next
    case 2
    then show ?thesis using assms
      by (simp add: cpp_div_def mult_sgn_abs INT_MIN_def INT_MAX_def)
  qed
next
  case False
  with assms(3) have b2: "2 \<le> \<bar>b\<bar>" by linarith
  have "\<bar>a\<bar> div \<bar>b\<bar> \<le> \<bar>a\<bar> div 2"
    using b2 by (simp add: zdiv_mono2)
  moreover have "\<bar>a\<bar> \<le> 2147483648" using assms(1,2) by (simp add: INT_MIN_def INT_MAX_def)
  ultimately have "\<bar>a\<bar> div \<bar>b\<bar> \<le> 1073741824" by linarith
  with cpp_div_abs_le [of a b] show ?thesis
    unfolding INT_MIN_def INT_MAX_def by linarith
qed

lemma truncation_step_impossible:
  fixes u r b :: int
  assumes "\<bar>u\<bar> \<le> \<bar>u + r\<bar>" "\<bar>u + b\<bar> \<le> \<bar>u + r\<bar>" "\<bar>r\<bar> < \<bar>b\<bar>" "\<bar>r - b\<bar> < \<bar>b\<bar>"
  shows False
  using assms by linarith

lemma truncated_quotient_next:
  fixes a b q :: int
  assumes "\<bar>q * b\<bar> \<le> \<bar>a\<bar>" "\<bar>a - q * b\<bar> < \<bar>b\<bar>"
      and "\<bar>(q + 1) * b\<bar> \<le> \<bar>a\<bar>" "\<bar>a - (q + 1) * b\<bar> < \<bar>b\<bar>"
  shows False
proof -
  define u where "u = q * b"
  define r where "r = a - u"
  have e: "(q + 1) * b = u + b" by (simp add: u_def algebra_simps)
  have a: "a = u + r" by (simp add: r_def)
  show False
    using assms unfolding e u_def [symmetric]
    using truncation_step_impossible [of u r b] by (simp add: a)
qed

lemma truncated_quotient_unique:
  fixes a b q q' :: int
  assumes "\<bar>q * b\<bar> \<le> \<bar>a\<bar>" "\<bar>a - q * b\<bar> < \<bar>b\<bar>"
      and "\<bar>q' * b\<bar> \<le> \<bar>a\<bar>" "\<bar>a - q' * b\<bar> < \<bar>b\<bar>"
  shows "q = q'"
proof -
  have "(q' - q) * b = (a - q * b) - (a - q' * b)" by (simp add: algebra_simps)
  then have "\<bar>(q' - q) * b\<bar> < 2 * \<bar>b\<bar>" using assms(2,4) by linarith
  then have "\<bar>q' - q\<bar> * \<bar>b\<bar> < 2 * \<bar>b\<bar>" by (simp add: abs_mult)
  then have "\<bar>q' - q\<bar> < 2" by (simp add: mult_less_cancel_right)
  then consider "q' = q" | "q' = q + 1" | "q = q' + 1" by linarith
  then show ?thesis
  proof cases
    case 1
    then show ?thesis by simp
  next
    case 2
    with truncated_quotient_next [of q b a] assms show ?thesis by simp
  next
    case 3
    with truncated_quotient_next [of q' b a] assms show ?thesis by simp
  qed
qed

text \<open>
  Claim C8: applying \<open>/\<close> fails with the \<open>ExpressionError\<close> "Division by zero" exactly
  when the right operand is \<open>0\<close>; otherwise it returns the quotient truncated towards
  zero, for every left operand of type \<open>int\<close> except in the one case whose quotient is
  not an \<open>int\<close> (\<open>INT_MIN / -1\<close>, an overflow, which the specification leaves out of
  scope); and \<open>evaluate("4 / 0")\<close> fails with that error.
\<close>

theorem division_semantics:
  "(calculateBinaryOperation ''/'' left right = Inl (ExpressionError ''Division by zero''))
     = (right = 0) \<and>
   (right \<noteq> 0 \<and> INT_MIN \<le> left \<and> left \<le> INT_MAX \<and> \<not> (left = INT_MIN \<and> right = - 1) \<longrightarrow>
      (\<exists>q. calculateBinaryOperation ''/'' left right = Inr q \<and>
           \<bar>q * right\<bar> \<le> \<bar>left\<bar> \<and> \<bar>left - q * right\<bar> < \<bar>right\<bar>)) \<and>
   snd (evaluate operatorPrecedence ''4 / 0'') = Inl (ExpressionError ''Division by zero'')"
proof -
  have a: "(calculateBinaryOperation ''/'' left right = Inl (ExpressionError ''Division by zero''))
     = (right = 0)"
    by (simp add: calculateBinaryOperation_def int_result_def)
  have b: "\<exists>q. calculateBinaryOperation ''/'' left right = Inr q \<and>
           \<bar>q * right\<bar> \<le> \<bar>left\<bar> \<and> \<bar>left - q * right\<bar> < \<bar>right\<bar>"
    if "right \<noteq> 0" "INT_MIN \<le> left" "left \<le> INT_MAX" "\<not> (left = INT_MIN \<and> right = - 1)"
  proof -
    have "calculateBinaryOperation ''/'' left right = Inr (cpp_div left right)"
      using that cpp_div_in_range [of left right]
      by (simp add: calculateBinaryOperation_def int_result_def)
    then show ?thesis using cpp_div_truncates [OF that(1), of left] by simp
  qed
  have c: "snd (evaluate operatorPrecedence ''4 / 0'') = Inl (ExpressionError ''Division by zero'')"
    by code_simp
  from a b c show ?thesis by blast
qed


theorem division_semantics_witness:
  "calculateBinaryOperation ''/'' (- 7) 2 = Inr (- 3) \<and>
   calculateBinaryOperation ''/'' 4 0 = Inl (ExpressionError ''Division by zero'')"
proof -
  from division_semantics [of "- 7" 2]
  obtain q :: int where q: "calculateBinaryOperation ''/'' (- 7) 2 = Inr q"
      "\<bar>q * 2\<bar> \<le> 7" "\<bar>- 7 - q * 2\<bar> < 2"
    by (auto simp: INT_MIN_def INT_MAX_def)
  from q(2,3) have "q = - 3" by linarith
  moreover from division_semantics [of 4 0]
  have "calculateBinaryOperation ''/'' 4 0 = Inl (ExpressionError ''Division by zero'')"
    by simp
  ultimately show ?thesis using q(1) by simp
qed

subsection \<open>Unbalanced parentheses in the converter\<close>

lemma pop_until_paren_unmatched:
  "''('' \<notin> set operators \<Longrightarrow> pop_until_paren operators output = ([], output @ operators)"
  by (induction operators arbitrary: "output") auto

lemma pop_remaining_append: "pop_remaining operators output = output @ operators"
  by (induction operators arbitrary: "output") auto

text \<open>
  Claim C9: the converter has no failing path (the model's result type has no error
  component, as the source function has no \<open>throw\<close>). A right parenthesis met while no
  left parenthesis is on the stack pops every operator to the output, stops when the
  stack is empty, and the loop goes on with the empty stack; at the end of the input the
  whole stack, left parentheses included, is appended to the output.
\<close>

theorem converter_unbalanced:
  "(''('' \<notin> set operators \<longrightarrow>
      convert_loop T ('')'' # rest) operators output =
      convert_loop T rest [] (output @ operators)) \<and>
   snd (convertToPostfix T tokens) =
     snd (snd (convert_loop T tokens [] [])) @ fst (snd (convert_loop T tokens [] [])) \<and>
   convertToPostfix T [''3'', '')'', ''+'', ''4''] = (T, [''3'', ''4'', ''+'']) \<and>
   convertToPostfix T [''('', ''('', ''3''] = (T, [''3'', ''('', ''(''])"
proof -
  have a: "convert_loop T ('')'' # rest) operators output =
      convert_loop T rest [] (output @ operators)" if "''('' \<notin> set operators"
    using that by (simp add: pop_until_paren_unmatched first_char_def isdigit_def)
  have b: "snd (convertToPostfix T tokens) =
     snd (snd (convert_loop T tokens [] [])) @ fst (snd (convert_loop T tokens [] []))"
    by (simp add: convertToPostfix_def pop_remaining_append Let_def)
  have c: "convertToPostfix T [''3'', '')'', ''+'', ''4''] = (T, [''3'', ''4'', ''+''])"
    by (simp add: convertToPostfix_def first_char_def isdigit_def)
  have d: "convertToPostfix T [''('', ''('', ''3''] = (T, [''3'', ''('', ''(''])"
    by (simp add: convertToPostfix_def first_char_def isdigit_def)
  from a b c d show ?thesis by blast
qed

theorem converter_unbalanced_witness:
  "convert_loop operatorPrecedence [''3'', ''*'', ''4'', '')'', ''5''] [] [] =
     (operatorPrecedence, [], [''3'', ''4'', ''*'', ''5''])"
proof -
  have "convert_loop operatorPrecedence [''3'', ''*'', ''4'', '')'', ''5''] [] [] =
        convert_loop operatorPrecedence ('')'' # [''5'']) [''*''] [''3'', ''4'']"
    by (simp add: first_char_def isdigit_def)
  also have "\<dots> = convert_loop operatorPrecedence [''5''] [] ([''3'', ''4''] @ [''*''])"
    using converter_unbalanced [of "[''*'']" operatorPrecedence "[''5'']" "[''3'', ''4'']"]
    by simp
  also have "\<dots> = (operatorPrecedence, [], [''3'', ''4'', ''*'', ''5''])"
    by (simp add: first_char_def isdigit_def)
  finally show ?thesis .
qed

subsection \<open>Associativity in the converter\<close>

lemma subscript_value_subscript_table [simp]:
  "subscript_value (subscript_table T k) k' = subscript_value T k'"
  by (simp add: subscript_value_def subscript_table_def split: option.splits)

lemma pops_subscript_table [simp]: "pops (subscript_table T k) token t = pops T token t"
  by (simp add: pops_def)

lemma pop_operators_stack_output:
  "snd (pop_operators T token operators output) =
     (dropWhile (pops T token) operators, output @ takeWhile (pops T token) operators)"
proof (induction operators arbitrary: T "output")
  case Nil
  show ?case by simp
next
  case (Cons t operators)
  show ?case
  proof (cases "pops T token t")
    case True
    then have "pop_operators T token (t # operators) output =
        pop_operators (subscript_table (subscript_table T token) t) token operators (output @ [t])"
      by (auto simp: pops_def Let_def split: if_splits)
    then show ?thesis using True Cons.IH by simp
  next
    case False
    then show ?thesis by (auto simp: pops_def Let_def split: if_splits)
  qed
qed



subsection \<open>Unary minus\<close>

lemma minus_resolved_snoc:
  "minus_resolved T before (xs @ [t]) =
     (minus_resolved T before xs \<and>
      (if t = ''neg'' then value_expected T (before @ xs)
       else if t = ''-'' then \<not> value_expected T (before @ xs)
       else True))"
  by (induction xs arbitrary: before) auto

lemma isdigit_not_minus: "isdigit c \<Longrightarrow> c \<noteq> CHR ''-'' \<and> c \<noteq> CHR ''n''"
  by (auto simp: isdigit_def)

lemma tokenize_from_minus_resolved:
  "minus_resolved T [] tokens \<Longrightarrow> minus_resolved T [] (tokenize_from T s tokens)"
proof (induction T s tokens rule: tokenize_from.induct)
  case (1 T tokens)
  then show ?case by simp
next
  case (2 T c cs tokens)
  show ?case
  proof (cases "isspace c")
    case True
    with 2 show ?thesis by (simp add: tokenize_from.simps(2))
  next
    case space: False
    show ?thesis
    proof (cases "isdigit c")
      case True
      with space 2 isdigit_not_minus [of c] show ?thesis
        by (simp add: tokenize_from.simps(2) minus_resolved_snoc)
    next
      case digit: False
      show ?thesis
      proof (cases "cs \<noteq> [] \<and> count T [c, hd cs]")
        case True
        with space digit 2 show ?thesis
          by (simp add: tokenize_from.simps(2) minus_resolved_snoc)
      next
        case two: False
        show ?thesis
        proof (cases "[c] = ''-'' \<and> (tokens = [] \<or> last tokens = ''('' \<or> count T (last tokens))")
          case True
          with space digit two 2 show ?thesis
            by (auto simp: tokenize_from.simps(2) minus_resolved_snoc value_expected_def)
        next
          case False
          with space digit two 2 show ?thesis
            by (auto simp: tokenize_from.simps(2) minus_resolved_snoc value_expected_def)
        qed
      qed
    qed
  qed
qed

text \<open>
  Claim C6 says that a \<open>-\<close> is rewritten to \<open>neg\<close> exactly when no token has been pushed
  yet or the last token is a left parenthesis or a symbol of the table. The two-character
  match comes first: in \<open>"2*--3"\<close> the first \<open>-\<close> follows the table symbol \<open>*\<close>, and it
  is not rewritten; together with the next \<open>-\<close> it becomes the token \<open>--\<close>, and the token
  sequence has no \<open>neg\<close>.
\<close>

theorem unary_minus_rewrite_counterexample:
  "value_expected operatorPrecedence [''2'', ''*''] \<and>
   tokenize_from operatorPrecedence ''--3'' [''2'', ''*''] = [''2'', ''*'', ''--'', ''3''] \<and>
   tokenizeExpression operatorPrecedence ''2*--3'' = [''2'', ''*'', ''--'', ''3''] \<and>
   ''neg'' \<notin> set (tokenizeExpression operatorPrecedence ''2*--3'')"
  by code_simp

text \<open>
  Claim C6 as amended: a \<open>-\<close> that begins a two-character operator of the table (in
  \<open>operatorPrecedence\<close>, a \<open>-\<close> followed by \<open>-\<close>) becomes that operator's token in every
  context; any other \<open>-\<close> is pushed as \<open>neg\<close> exactly when no token has been pushed yet or
  the last token is a left parenthesis or a symbol of the table, and as \<open>-\<close> otherwise.
  So in the token sequence of every input each \<open>neg\<close> stands in one of those three
  situations and no \<open>-\<close> does, and \<open>"-3 + 5"\<close> evaluates to \<open>2\<close>, \<open>"3 - -5"\<close> to \<open>8\<close> and
  \<open>"(-3) * 2"\<close> to \<open>-6\<close>.
\<close>

theorem unary_minus_rewrite:
  "minus_resolved T [] (tokenizeExpression T s) \<and>
   tokenize_from T (CHR ''-'' # cs) tokens =
     (if cs \<noteq> [] \<and> count T [CHR ''-'', hd cs]
      then tokenize_from T (tl cs) (tokens @ [[CHR ''-'', hd cs]])
      else tokenize_from T cs (tokens @ [if value_expected T tokens then ''neg'' else ''-''])) \<and>
   snd (evaluate operatorPrecedence ''-3 + 5'') = Inr 2 \<and>
   snd (evaluate operatorPrecedence ''3 - -5'') = Inr 8 \<and>
   snd (evaluate operatorPrecedence ''(-3) * 2'') = Inr (- 6)"
proof -
  have a: "minus_resolved T [] (tokenizeExpression T s)"
    by (simp add: tokenizeExpression_def tokenize_from_minus_resolved)
  have b: "tokenize_from T (CHR ''-'' # cs) tokens =
     (if cs \<noteq> [] \<and> count T [CHR ''-'', hd cs]
      then tokenize_from T (tl cs) (tokens @ [[CHR ''-'', hd cs]])
      else tokenize_from T cs (tokens @ [if value_expected T tokens then ''neg'' else ''-'']))"
    by (auto simp: tokenize_from.simps(2) value_expected_def isspace_def isdigit_def)
  have c: "snd (evaluate operatorPrecedence ''-3 + 5'') = Inr 2" by code_simp
  have d: "snd (evaluate operatorPrecedence ''3 - -5'') = Inr 8" by code_simp
  have e: "snd (evaluate operatorPrecedence ''(-3) * 2'') = Inr (- 6)" by code_simp
  from a b c d e show ?thesis by blast
qed

theorem unary_minus_rewrite_witness:
  "tokenizeExpression operatorPrecedence ''3 - (-5 - -2)'' =
     [''3'', ''-'', ''('', ''neg'', ''5'', ''-'', ''neg'', ''2'', '')''] \<and>
   minus_resolved operatorPrecedence []
     [''3'', ''-'', ''('', ''neg'', ''5'', ''-'', ''neg'', ''2'', '')''] \<and>
   tokenize_from operatorPrecedence ''- 5'' [''(''] =
     tokenize_from operatorPrecedence '' 5'' [''('', ''neg''] \<and>
   tokenize_from operatorPrecedence ''--5'' [''(''] =
     tokenize_from operatorPrecedence ''5'' [''('', ''--'']"
proof -
  have t: "tokenizeExpression operatorPrecedence ''3 - (-5 - -2)'' =
     [''3'', ''-'', ''('', ''neg'', ''5'', ''-'', ''neg'', ''2'', '')'']"
    by code_simp
  have c: "\<not> count operatorPrecedence [CHR ''-'', CHR '' '']" by code_simp
  have c2: "count operatorPrecedence [CHR ''-'', CHR ''-'']" by code_simp
  have v: "value_expected operatorPrecedence [''('']" by code_simp
  show ?thesis
    using unary_minus_rewrite [of operatorPrecedence "''3 - (-5 - -2)''" "'' 5''" "[''('']"]
          unary_minus_rewrite [of operatorPrecedence "''3 - (-5 - -2)''" "''-5''" "[''('']"]
          t c c2 v
    by simp
qed

subsection \<open>The validator\<close>

lemma validate_at_None:
  assumes "T [] = None" "i < length tokens"
  shows "(validate_at T tokens i = None) = (\<not> violation T tokens i)"
proof -
  have e: "\<not> count T []" using assms(1) by (simp add: count_def)
  have n: "\<not> is_number []" by (simp add: is_number_def first_char_def isdigit_def)
  show ?thesis
    using e n assms(2)
    by (cases "i = 0")
       (auto simp: validate_at_def violation_def is_binary_def is_number_def Let_def)
qed

lemma validate_at_Some:
  "validate_at T tokens i = Some e \<Longrightarrow> \<exists>msg. e = ExpressionError msg"
  by (auto simp: validate_at_def Let_def split: if_splits)

lemma validate_from_Inr:
  "(validate_from T tokens i = Inr ()) =
     (\<forall>j. i \<le> j \<and> j < length tokens \<longrightarrow> validate_at T tokens j = None)"
proof (induction T tokens i rule: validate_from.induct)
  case (1 T tokens i)
  show ?case
  proof (cases "i < length tokens")
    case False
    then show ?thesis by (auto simp: validate_from.simps)
  next
    case True
    show ?thesis
    proof (cases "validate_at T tokens i")
      case None
      have "(\<forall>j. i \<le> j \<and> j < length tokens \<longrightarrow> validate_at T tokens j = None) =
            (\<forall>j. i + 1 \<le> j \<and> j < length tokens \<longrightarrow> validate_at T tokens j = None)"
        using None by (metis Suc_eq_plus1 Suc_leI le_neq_implies_less add_leD1)
      with 1 [OF True None] True None show ?thesis
        by (subst validate_from.simps) simp
    next
      case (Some e)
      with True show ?thesis
        by (subst validate_from.simps) auto
    qed
  qed
qed

lemma validate_from_Inl:
  "validate_from T tokens i = Inl e \<Longrightarrow>
     \<exists>j. i \<le> j \<and> j < length tokens \<and> validate_at T tokens j = Some e \<and>
         (\<forall>k. i \<le> k \<and> k < j \<longrightarrow> validate_at T tokens k = None)"
proof (induction T tokens i rule: validate_from.induct)
  case (1 T tokens i)
  from "1.prems" have lt: "i < length tokens"
    by (subst (asm) validate_from.simps) (simp split: if_splits)
  show ?case
  proof (cases "validate_at T tokens i")
    case None
    with "1.prems" lt have "validate_from T tokens (i + 1) = Inl e"
      by (subst (asm) validate_from.simps) simp
    from "1.IH" [OF lt None this] obtain j where j: "i + 1 \<le> j" "j < length tokens"
        "validate_at T tokens j = Some e"
        "\<forall>k. i + 1 \<le> k \<and> k < j \<longrightarrow> validate_at T tokens k = None"
      by blast
    have "\<forall>k. i \<le> k \<and> k < j \<longrightarrow> validate_at T tokens k = None"
      using j(4) None by (metis Suc_eq_plus1 Suc_leI le_neq_implies_less)
    with j show ?thesis by (intro exI [of _ j]) simp
  next
    case (Some e')
    with "1.prems" lt have "e' = e"
      by (subst (asm) validate_from.simps) simp
    with Some lt show ?thesis by (intro exI [of _ i]) auto
  qed
qed

text \<open>
  Claim C7: on a table that has no entry for the empty string (as is the case for
  \<open>operatorPrecedence\<close>), the validator succeeds exactly when no position shows one of
  the five shapes of \<open>violation\<close>, and when it fails, it fails with the \<open>ExpressionError\<close>
  that the loop body raises at the first position that shows one. The four inputs of
  the specification fail in validation.
\<close>

theorem validator_shapes:
  assumes "T [] = None"
  shows "((validateTokenSequence T tokens = Inr ()) =
            (\<forall>i<length tokens. \<not> violation T tokens i)) \<and>
         (\<forall>e. validateTokenSequence T tokens = Inl e \<longrightarrow>
            (\<exists>i<length tokens. violation T tokens i \<and> (\<forall>j<i. \<not> violation T tokens j) \<and>
               validate_at T tokens i = Some e \<and> (\<exists>msg. e = ExpressionError msg))) \<and>
         snd (evaluate operatorPrecedence ''* 3 + 2'') =
           Inl (ExpressionError ''Expression can't start with a binary operator @ char: 0'') \<and>
         snd (evaluate operatorPrecedence '') 3'') =
           Inl (ExpressionError ''Expression can't start with a closing parenthesis @ char: 0'') \<and>
         snd (evaluate operatorPrecedence ''3 4'') =
           Inl (ExpressionError ''Two operands in a row @ char: 1'') \<and>
         snd (evaluate operatorPrecedence ''3 + + 4'') =
           Inl (ExpressionError ''Two binary operators in a row @ char: 2'')"
proof -
  have a: "(validateTokenSequence T tokens = Inr ()) =
            (\<forall>i<length tokens. \<not> violation T tokens i)"
    using validate_at_None [where T = T and tokens = tokens, OF assms]
    by (auto simp: validateTokenSequence_def validate_from_Inr)
  have b: "\<exists>i<length tokens. violation T tokens i \<and> (\<forall>j<i. \<not> violation T tokens j) \<and>
               validate_at T tokens i = Some e \<and> (\<exists>msg. e = ExpressionError msg)"
    if "validateTokenSequence T tokens = Inl e" for e
  proof -
    from that obtain i where i: "i < length tokens" "validate_at T tokens i = Some e"
        "\<forall>k. k < i \<longrightarrow> validate_at T tokens k = None"
      using validate_from_Inl [of T tokens 0 e] by (auto simp: validateTokenSequence_def)
    have "violation T tokens i"
      using validate_at_None [where T = T and tokens = tokens, OF assms i(1)] i(2) by auto
    moreover have "\<forall>j<i. \<not> violation T tokens j"
      using validate_at_None [where T = T and tokens = tokens, OF assms] i(1,3) by auto
    ultimately show ?thesis
      using i(1,2) validate_at_Some [OF i(2)] by blast
  qed
  have c: "snd (evaluate operatorPrecedence ''* 3 + 2'') =
      Inl (ExpressionError ''Expression can't start with a binary operator @ char: 0'')"
    by code_simp
  have d: "snd (evaluate operatorPrecedence '') 3'') =
      Inl (ExpressionError ''Expression can't start with a closing parenthesis @ char: 0'')"
    by code_simp
  have e: "snd (evaluate operatorPrecedence ''3 4'') =
      Inl (ExpressionError ''Two operands in a row @ char: 1'')"
    by code_simp
  have f: "snd (evaluate operatorPrecedence ''3 + + 4'') =
      Inl (ExpressionError ''Two binary operators in a row @ char: 2'')"
    by code_simp
  from a b c d e f show ?thesis by blast
qed


theorem validator_shapes_witness:
  "operatorPrecedence [] = None \<and>
   validateTokenSequence operatorPrecedence [''3'', ''+'', ''4''] = Inr () \<and>
   violation operatorPrecedence [''3'', ''+'', ''+'', ''4''] 2 \<and>
   validateTokenSequence operatorPrecedence [''3'', ''+'', ''+'', ''4''] \<noteq> Inr ()"
proof -
  have T: "operatorPrecedence [] = None" by code_simp
  have ok: "\<not> violation operatorPrecedence [''3'', ''+'', ''4''] 0"
      "\<not> violation operatorPrecedence [''3'', ''+'', ''4''] 1"
      "\<not> violation operatorPrecedence [''3'', ''+'', ''4''] 2"
    by code_simp+
  have "\<not> violation operatorPrecedence [''3'', ''+'', ''4''] i" if "i < 3" for i
  proof -
    from that consider "i = 0" | "i = 1" | "i = 2" by linarith
    then show ?thesis using ok by cases simp_all
  qed
  then have good: "validateTokenSequence operatorPrecedence [''3'', ''+'', ''4''] = Inr ()"
    using validator_shapes [of operatorPrecedence "[''3'', ''+'', ''4'']"] T by simp
  have v: "violation operatorPrecedence [''3'', ''+'', ''+'', ''4''] 2" by code_simp
  then have bad: "validateTokenSequence operatorPrecedence [''3'', ''+'', ''+'', ''4''] \<noteq> Inr ()"
    using validator_shapes [of operatorPrecedence "[''3'', ''+'', ''+'', ''4'']"] T by auto
  from T good v bad show ?thesis by simp
qed

subsection \<open>Arithmetic expressions: values\<close>

lemma isdigit_not_isspace: "isdigit c \<Longrightarrow> \<not> isspace c"
  by (auto simp: isdigit_def isspace_def)

lemma digit_value_bounds: "isdigit c \<Longrightarrow> 0 \<le> digit_value c \<and> digit_value c \<le> 9"
  by (auto simp: isdigit_def digit_value_def)

lemma foldl_decimal:
  "foldl (\<lambda>a c. 10 * a + digit_value c) a ds = a * 10 ^ length ds + digits_value (rev ds)"
proof (induction ds rule: rev_induct)
  case Nil
  show ?case by simp
next
  case (snoc d ds)
  then show ?case by (simp add: algebra_simps)
qed

lemma decimal_value_number: "decimal_value ds = number ds"
  by (simp add: decimal_value_def number_def foldl_decimal)

lemma digits_value_nonneg: "list_all isdigit ds \<Longrightarrow> 0 \<le> digits_value ds"
  by (induction ds) (auto dest: digit_value_bounds)

lemma number_nonneg: "list_all isdigit ds \<Longrightarrow> 0 \<le> number ds"
  by (simp add: number_def digits_value_nonneg)

lemma stoi_digits:
  assumes "ds \<noteq> []" "list_all isdigit ds"
  shows "stoi ds = (if number ds \<le> INT_MAX then Inr (number ds) else Inl StdOutOfRange)"
proof -
  from assms obtain d ds' where ds: "ds = d # ds'" "isdigit d" by (cases ds) auto
  have s: "dropWhile isspace ds = ds"
    using ds isdigit_not_isspace by simp
  have h: "hd ds \<noteq> CHR ''-''" "hd ds \<noteq> CHR ''+''"
    using ds by (auto simp: isdigit_def)
  have t: "takeWhile isdigit ds = ds"
    using assms(2) by (simp add: list_all_iff)
  have "INT_MIN \<le> number ds"
    using number_nonneg [OF assms(2)] by (simp add: INT_MIN_def)
  then show ?thesis
    using assms(1) h by (simp add: stoi_def s t decimal_value_number Let_def)
qed

lemma cpp_div_truncated_quotient: "y \<noteq> 0 \<Longrightarrow> cpp_div x y = truncated_quotient x y"
  by (cases "x = 0") (auto simp: cpp_div_def truncated_quotient_def sgn_if)

lemma op_symbol_not_number [simp]: "\<not> isdigit (first_char (op_symbol op))"
  by (cases op) (simp_all add: first_char_def isdigit_def)

lemma op_symbol_not_unary [simp]: "\<not> isUnaryOperator (op_symbol op)"
  by (cases op) (simp_all add: isUnaryOperator_def)

lemma calculate_apply_op:
  assumes "apply_op op x y = Some v" "INT_MIN \<le> v" "v \<le> INT_MAX"
  shows "calculateBinaryOperation (op_symbol op) x y = Inr v"
  using assms
  by (cases op)
     (auto simp: calculateBinaryOperation_def int_result_def cpp_div_truncated_quotient
           split: if_splits)

lemma outcome_standard_value:
  "well_formed e \<Longrightarrow> within_int e \<Longrightarrow> standard_value e = Some v \<Longrightarrow> outcome e = Inr v"
proof (induction e arbitrary: v)
  case (Literal w1 ds w2)
  then show ?case by (auto simp: stoi_digits is_int_def)
next
  case (Parens w1 e w2)
  then show ?case by simp
next
  case (Binary a op b)
  from Binary.prems(3) obtain x y where xy: "standard_value a = Some x"
      "standard_value b = Some y" "apply_op op x y = Some v"
    by (auto split: option.splits)
  from Binary.prems(2,3) have v: "INT_MIN \<le> v" "v \<le> INT_MAX"
    by (auto simp: is_int_def)
  have "outcome a = Inr x" "outcome b = Inr y"
    using Binary.IH Binary.prems(1,2) xy by auto
  then show ?case using calculate_apply_op [OF xy(3) v] by simp
qed

lemma well_formed_first_token:
  "well_formed e \<Longrightarrow> postfix_of e \<noteq> []"
  by (induction e) auto

lemma evaluate_loop_postfix_of:
  "well_formed e \<Longrightarrow>
   evaluate_loop (postfix_of e @ rest) values =
     (case outcome e of Inl err \<Rightarrow> Inl err | Inr v \<Rightarrow> evaluate_loop rest (v # values))"
proof (induction e arbitrary: rest "values")
  case (Literal w1 ds w2)
  then obtain d ds' where "ds = d # ds'" "isdigit d" by (cases ds) auto
  then show ?case by (simp add: first_char_def)
next
  case (Parens w1 e w2)
  then show ?case by simp
next
  case (Binary a op b)
  then show ?case by (auto split: sum.splits)
qed

lemma evaluatePostfixExpression_postfix_of:
  "well_formed e \<Longrightarrow> evaluatePostfixExpression (postfix_of e) = outcome e"
  using evaluate_loop_postfix_of [of e "[]" "[]"]
  by (auto simp: evaluatePostfixExpression_def split: sum.splits)

subsection \<open>Arithmetic expressions: tokens\<close>

lemma count_operatorPrecedence:
  "count operatorPrecedence k =
     (k \<in> set [''||'', ''&&'', ''=='', ''!='', ''>'', ''>='', ''<'', ''<='', ''+'', ''-'',
               ''*'', ''/'', ''%'', ''^'', ''!'', ''++'', ''--'', ''neg''])"
proof -
  have "count operatorPrecedence k = (k \<in> dom operatorPrecedence)"
    by (auto simp: count_def)
  also have "dom operatorPrecedence = set [''||'', ''&&'', ''=='', ''!='', ''>'', ''>='', ''<'', ''<='', ''+'', ''-'',
               ''*'', ''/'', ''%'', ''^'', ''!'', ''++'', ''--'', ''neg'']"
    unfolding operatorPrecedence_def dom_map_of_conv_image_fst by simp
  finally show ?thesis .
qed

lemma no_two_char_operator:
  "c \<in> set ''()*/'' \<Longrightarrow> \<not> count operatorPrecedence [c, x]"
  "x \<noteq> CHR ''+'' \<Longrightarrow> \<not> count operatorPrecedence [CHR ''+'', x]"
  "x \<noteq> CHR ''-'' \<Longrightarrow> \<not> count operatorPrecedence [CHR ''-'', x]"
  by (auto simp: count_operatorPrecedence)

lemma not_space_not_digit:
  "c \<in> set ''()*/+-'' \<Longrightarrow> \<not> isspace c \<and> \<not> isdigit c"
  by (auto simp: isspace_def isdigit_def)

lemma tokenize_from_skip:
  "list_all isspace w \<Longrightarrow> tokenize_from T (w @ s) tokens = tokenize_from T s tokens"
  by (induction w) (simp_all add: tokenize_from.simps(2))

lemma takeWhile_stop: "s = [] \<or> \<not> P (hd s) \<Longrightarrow> takeWhile P s = []"
  by (cases s) auto

lemma dropWhile_stop: "s = [] \<or> \<not> P (hd s) \<Longrightarrow> dropWhile P s = s"
  by (cases s) auto

lemma tokenize_from_digits:
  assumes "ds \<noteq> []" "list_all isdigit ds" "s = [] \<or> \<not> isdigit (hd s)"
  shows "tokenize_from T (ds @ s) tokens = tokenize_from T s (tokens @ [ds])"
proof -
  from assms obtain d ds' where ds: "ds = d # ds'" "isdigit d" "list_all isdigit ds'"
    by (cases ds) auto
  have t: "takeWhile isdigit (ds' @ s) = ds'"
    using ds(3) assms(3) by (simp add: takeWhile_append2 list_all_iff takeWhile_stop)
  have d: "dropWhile isdigit (ds' @ s) = s"
    using ds(3) assms(3) by (simp add: dropWhile_append2 list_all_iff dropWhile_stop)
  show ?thesis
    using ds(1,2) isdigit_not_isspace [OF ds(2)] by (simp add: tokenize_from.simps(2) t d)
qed

lemma tokenize_from_paren:
  assumes "c = CHR ''('' \<or> c = CHR '')''"
  shows "tokenize_from operatorPrecedence (c # s) tokens =
         tokenize_from operatorPrecedence s (tokens @ [[c]])"
proof -
  have c: "c \<in> set ''()*/''" "c \<in> set ''()*/+-''" "c \<noteq> CHR ''-''"
    using assms by auto
  show ?thesis
    using no_two_char_operator(1) [OF c(1)] not_space_not_digit [OF c(2)] c(3)
    by (subst tokenize_from.simps(2)) simp
qed

lemma tokenize_from_op:
  assumes "s \<noteq> []" "hd s \<noteq> CHR ''+''" "hd s \<noteq> CHR ''-''"
      and "\<not> value_expected operatorPrecedence tokens"
  shows "tokenize_from operatorPrecedence (op_symbol op @ s) tokens =
         tokenize_from operatorPrecedence s (tokens @ [op_symbol op])"
proof -
  obtain c where c: "op_symbol op = [c]" "c \<in> set ''()*/+-''"
      "\<not> count operatorPrecedence [c, hd s]"
    using assms(2,3) no_two_char_operator [where x = "hd s"] by (cases op) auto
  have v: "\<not> (tokens = [] \<or> last tokens = ''('' \<or> count operatorPrecedence (last tokens))"
    using assms(4) by (simp add: value_expected_def)
  show ?thesis
    unfolding c(1) using c(3) not_space_not_digit [OF c(2)] v
    by (simp add: tokenize_from.simps(2))
qed

lemma render_first:
  "well_formed e \<Longrightarrow>
   render e \<noteq> [] \<and>
   (isspace (hd (render e)) \<or> isdigit (hd (render e)) \<or> hd (render e) = CHR ''('')"
proof (induction e)
  case (Literal w1 ds w2)
  then show ?case by (cases w1; cases ds) auto
next
  case (Parens w1 e w2)
  then show ?case by (cases w1) auto
next
  case (Binary a op b)
  then show ?case by (cases "render a") auto
qed

lemma render_first_not_sign:
  assumes "well_formed e"
  shows "render e @ s \<noteq> []" "hd (render e @ s) \<noteq> CHR ''+''" "hd (render e @ s) \<noteq> CHR ''-''"
  using render_first [OF assms] by (auto simp: isspace_def isdigit_def)

lemma is_number_not_operator:
  "is_number t \<Longrightarrow> \<not> count operatorPrecedence t \<and> t \<noteq> ''('' \<and> t \<noteq> '')'' \<and> \<not> isUnaryOperator t"
  by (auto simp: is_number_def count_operatorPrecedence first_char_def isdigit_def
                 isUnaryOperator_def)

lemma tokens_of_last:
  "well_formed e \<Longrightarrow>
   tokens_of e \<noteq> [] \<and> (last (tokens_of e) = '')'' \<or> is_number (last (tokens_of e)))"
proof (induction e)
  case (Literal w1 ds w2)
  then show ?case by (cases ds) (auto simp: is_number_def first_char_def)
next
  case (Parens w1 e w2)
  then show ?case by simp
next
  case (Binary a op b)
  then show ?case by simp
qed

lemma tokens_of_first:
  "well_formed e \<Longrightarrow>
   tokens_of e \<noteq> [] \<and> (hd (tokens_of e) = ''('' \<or> is_number (hd (tokens_of e)))"
proof (induction e)
  case (Literal w1 ds w2)
  then show ?case by (cases ds) (auto simp: is_number_def first_char_def)
next
  case (Parens w1 e w2)
  then show ?case by simp
next
  case (Binary a op b)
  then show ?case by simp
qed

lemma after_operand:
  assumes "well_formed e"
  shows "\<not> value_expected operatorPrecedence (tokens @ tokens_of e)"
  using tokens_of_last [OF assms] is_number_not_operator [of "last (tokens_of e)"]
  by (auto simp: value_expected_def count_operatorPrecedence)

lemma tokenize_from_render:
  "well_formed e \<Longrightarrow> s = [] \<or> \<not> isdigit (hd s) \<Longrightarrow>
   tokenize_from operatorPrecedence (render e @ s) tokens =
   tokenize_from operatorPrecedence s (tokens @ tokens_of e)"
proof (induction e arbitrary: s tokens)
  case (Literal w1 ds w2)
  have "tokenize_from operatorPrecedence (w1 @ ds @ w2 @ s) tokens =
        tokenize_from operatorPrecedence (ds @ w2 @ s) tokens"
    using Literal.prems(1) by (simp add: tokenize_from_skip)
  also have "\<dots> = tokenize_from operatorPrecedence (w2 @ s) (tokens @ [ds])"
  proof (rule tokenize_from_digits)
    show "ds \<noteq> []" "list_all isdigit ds" using Literal.prems(1) by auto
    show "w2 @ s = [] \<or> \<not> isdigit (hd (w2 @ s))"
      using Literal.prems isdigit_not_isspace by (cases w2) auto
  qed
  also have "\<dots> = tokenize_from operatorPrecedence s (tokens @ [ds])"
    using Literal.prems(1) by (simp add: tokenize_from_skip)
  finally show ?case by simp
next
  case (Parens w1 e w2)
  have "tokenize_from operatorPrecedence (w1 @ CHR ''('' # render e @ CHR '')'' # w2 @ s) tokens =
        tokenize_from operatorPrecedence (CHR ''('' # render e @ CHR '')'' # w2 @ s) tokens"
    using Parens.prems(1) by (simp add: tokenize_from_skip)
  also have "\<dots> = tokenize_from operatorPrecedence (render e @ CHR '')'' # w2 @ s)
                      (tokens @ [''(''])"
    by (simp add: tokenize_from_paren)
  also have "\<dots> = tokenize_from operatorPrecedence (CHR '')'' # w2 @ s)
                      ((tokens @ [''('']) @ tokens_of e)"
    using Parens.prems(1) by (intro Parens.IH) (simp_all add: isdigit_def)
  also have "\<dots> = tokenize_from operatorPrecedence (w2 @ s)
                      (((tokens @ [''('']) @ tokens_of e) @ ['')''])"
    by (simp add: tokenize_from_paren)
  also have "\<dots> = tokenize_from operatorPrecedence s
                      (((tokens @ [''('']) @ tokens_of e) @ ['')''])"
    using Parens.prems(1) by (simp add: tokenize_from_skip)
  finally show ?case by simp
next
  case (Binary a op b)
  from Binary.prems(1) have wf: "well_formed a" "well_formed b" by auto
  have sym: "\<not> isdigit (hd (op_symbol op @ render b @ s))"
    by (cases op) (simp_all add: isdigit_def)
  have "tokenize_from operatorPrecedence (render a @ op_symbol op @ render b @ s) tokens =
        tokenize_from operatorPrecedence (op_symbol op @ render b @ s) (tokens @ tokens_of a)"
    using wf(1) sym by (intro Binary.IH(1)) simp_all
  also have "\<dots> = tokenize_from operatorPrecedence (render b @ s)
                      ((tokens @ tokens_of a) @ [op_symbol op])"
    using render_first_not_sign [OF wf(2), of s] after_operand [OF wf(1), of tokens]
    by (intro tokenize_from_op) simp_all
  also have "\<dots> = tokenize_from operatorPrecedence s
                      (((tokens @ tokens_of a) @ [op_symbol op]) @ tokens_of b)"
    using wf(2) Binary.prems(2) by (intro Binary.IH(2)) simp_all
  finally show ?case by simp
qed

lemma tokenizeExpression_render:
  "well_formed e \<Longrightarrow> tokenizeExpression operatorPrecedence (render e) = tokens_of e"
  using tokenize_from_render [of e "[]" "[]"] by (simp add: tokenizeExpression_def)

subsection \<open>Arithmetic expressions: validation\<close>

lemma successively_nth:
  "successively P xs \<Longrightarrow> Suc i < length xs \<Longrightarrow> P (xs ! i) (xs ! Suc i)"
proof (induction P xs arbitrary: i rule: successively.induct)
  case (3 P x y xs)
  then show ?case by (cases i) auto
qed simp_all

lemma no_violation:
  assumes "tokens \<noteq> []" "hd tokens \<noteq> '')''" "\<not> is_binary T (hd tokens)"
      and "successively (neighbours_ok T) tokens" "i < length tokens"
  shows "\<not> violation T tokens i"
proof (cases i)
  case 0
  have "neighbours_ok T (tokens ! 0) (tokens ! Suc 0)" if "Suc 0 < length tokens"
    using successively_nth [OF assms(4) that] .
  then show ?thesis
    using 0 assms(1,2,3) by (auto simp: violation_def hd_conv_nth neighbours_ok_def)
next
  case (Suc j)
  have p: "neighbours_ok T (tokens ! j) (tokens ! Suc j)"
    using successively_nth [OF assms(4)] assms(5) Suc by simp
  have n: "neighbours_ok T (tokens ! Suc j) (tokens ! Suc (Suc j))"
    if "Suc (Suc j) < length tokens"
    using successively_nth [OF assms(4) that] .
  show ?thesis
    using Suc p n by (auto simp: violation_def neighbours_ok_def)
qed

lemma paren_not_operator:
  "\<not> count operatorPrecedence ''(''" "\<not> count operatorPrecedence '')''"
  "\<not> is_number ''(''" "\<not> is_number '')''" "\<not> isUnaryOperator ''(''" "\<not> isUnaryOperator '')''"
  by (simp_all add: count_operatorPrecedence is_number_def first_char_def isdigit_def
                    isUnaryOperator_def)

lemma op_symbol_binary: "is_binary operatorPrecedence (op_symbol op) \<and> \<not> is_number (op_symbol op)"
  by (cases op) (simp_all add: is_binary_def count_operatorPrecedence is_number_def
                               isUnaryOperator_def first_char_def isdigit_def)

lemma operand_not_binary:
  "t = ''('' \<or> t = '')'' \<or> is_number t \<Longrightarrow>
   \<not> is_binary operatorPrecedence t \<and> \<not> isUnaryOperator t"
  using is_number_not_operator [of t] paren_not_operator by (auto simp: is_binary_def)

lemma neighbours_operand_op:
  "p = '')'' \<or> is_number p \<Longrightarrow> neighbours_ok operatorPrecedence p (op_symbol op)"
  using operand_not_binary [of p] op_symbol_binary [of op] by (auto simp: neighbours_ok_def)

lemma neighbours_op_operand:
  "t = ''('' \<or> is_number t \<Longrightarrow> neighbours_ok operatorPrecedence (op_symbol op) t"
  using operand_not_binary [of t] op_symbol_binary [of op] by (auto simp: neighbours_ok_def)

lemma neighbours_open:
  "t = ''('' \<or> is_number t \<Longrightarrow> neighbours_ok operatorPrecedence ''('' t"
  using operand_not_binary [of t] paren_not_operator by (auto simp: neighbours_ok_def)

lemma neighbours_close:
  "p = '')'' \<or> is_number p \<Longrightarrow> neighbours_ok operatorPrecedence p '')''"
  using operand_not_binary [of "'')''"] paren_not_operator by (auto simp: neighbours_ok_def)

lemma tokens_of_neighbours:
  "well_formed e \<Longrightarrow> successively (neighbours_ok operatorPrecedence) (tokens_of e)"
proof (induction e)
  case (Literal w1 ds w2)
  show ?case by simp
next
  case (Parens w1 e w2)
  then have e: "well_formed e" by simp
  have "successively (neighbours_ok operatorPrecedence) (tokens_of e @ ['')''])"
    using Parens.IH [OF e] tokens_of_last [OF e] neighbours_close [of "last (tokens_of e)"]
    by (simp add: successively_append_iff)
  moreover have "neighbours_ok operatorPrecedence ''('' (hd (tokens_of e @ ['')'']))"
    using tokens_of_first [OF e] neighbours_open [of "hd (tokens_of e)"] by simp
  ultimately show ?case by (simp add: successively_Cons)
next
  case (Binary a op b)
  then have wf: "well_formed a" "well_formed b" by simp_all
  have "successively (neighbours_ok operatorPrecedence) (op_symbol op # tokens_of b)"
    using Binary.IH(2) [OF wf(2)] tokens_of_first [OF wf(2)]
          neighbours_op_operand [of "hd (tokens_of b)" op]
    by (simp add: successively_Cons)
  then show ?case
    using Binary.IH(1) [OF wf(1)] tokens_of_last [OF wf(1)]
          neighbours_operand_op [of "last (tokens_of a)" op]
    by (simp add: successively_append_iff)
qed

lemma validateTokenSequence_tokens_of:
  assumes "well_formed e"
  shows "validateTokenSequence operatorPrecedence (tokens_of e) = Inr ()"
proof -
  have T: "operatorPrecedence [] = None" by (simp add: operatorPrecedence_def)
  have f: "tokens_of e \<noteq> []" "hd (tokens_of e) \<noteq> '')''"
      "\<not> is_binary operatorPrecedence (hd (tokens_of e))"
    using tokens_of_first [OF assms] operand_not_binary [of "hd (tokens_of e)"]
          paren_not_operator
    by auto
  have "\<not> violation operatorPrecedence (tokens_of e) i" if "i < length (tokens_of e)" for i
    using no_violation [OF f tokens_of_neighbours [OF assms] that] .
  then have "validate_at operatorPrecedence (tokens_of e) i = None"
    if "i < length (tokens_of e)" for i
    using validate_at_None [where T = operatorPrecedence, OF T that] that by simp
  then show ?thesis
    by (simp add: validateTokenSequence_def validate_from_Inr)
qed

subsection \<open>Arithmetic expressions: conversion\<close>

lemma convert_loop_append:
  "convert_loop T (xs @ ys) operators out =
     (case convert_loop T xs operators out of
        (T', operators', out') \<Rightarrow> convert_loop T' ys operators' out')"
  by (induction xs arbitrary: T operators out) (simp_all add: Let_def)

lemma subscript_table_known: "count T k \<Longrightarrow> subscript_table T k = T"
  by (auto simp: subscript_table_def count_def)

lemma pop_operators_table:
  "count T token \<Longrightarrow> \<forall>t \<in> set operators. t = ''('' \<or> count T t \<Longrightarrow>
   fst (pop_operators T token operators out) = T"
  by (induction operators arbitrary: out) (auto simp: Let_def subscript_table_known)

lemma pops_op_symbols:
  "pops operatorPrecedence (op_symbol op) (op_symbol op') = (op_level op \<le> op_level op')"
  by (cases op; cases op')
     (simp_all add: pops_def subscript_value_def operatorPrecedence_def isRightAssociative_def)

lemma pops_paren: "\<not> pops T token ''(''"
  by (simp add: pops_def)

lemma count_op_symbol: "count operatorPrecedence (op_symbol op)"
  by (cases op) (simp_all add: count_operatorPrecedence)

lemma op_symbol_not_paren: "op_symbol op \<noteq> ''('' \<and> op_symbol op \<noteq> '')''"
  by (cases op) simp_all

lemma ready_Nil: "ready k []"
  by (simp add: ready_def)

lemma ready_paren: "ready k (''('' # operators)"
  by (simp add: ready_def pops_paren)

lemma ready_mono: "ready k operators \<Longrightarrow> k \<le> k' \<Longrightarrow> ready k' operators"
  by (cases operators) (auto simp: ready_def)

lemma ready_op:
  assumes "op_level op < k"
  shows "ready k (op_symbol op # operators)"
proof -
  have "op_level op' < k \<or> \<not> pops operatorPrecedence (op_symbol op') (op_symbol op)" for op'
    using assms by (auto simp: pops_op_symbols)
  from this [of OpAdd] this [of OpSub] this [of OpMul] this [of OpDiv]
  show ?thesis by (simp add: ready_def)
qed

lemma ready_stops:
  "ready (op_level op) operators \<Longrightarrow>
   operators = [] \<or> \<not> pops operatorPrecedence (op_symbol op) (hd operators)"
  by (cases operators; cases op) (auto simp: ready_def)

lemma pop_operators_pending:
  assumes "\<forall>t \<in> set pending. \<exists>op'. t = op_symbol op' \<and> op_level op \<le> op_level op'"
      and "ready (op_level op) operators"
      and "\<forall>t \<in> set operators. t = ''('' \<or> count operatorPrecedence t"
  shows "pop_operators operatorPrecedence (op_symbol op) (pending @ operators) out =
         (operatorPrecedence, operators, out @ pending)"
proof -
  let ?P = "pops operatorPrecedence (op_symbol op)"
  have all: "\<And>t. t \<in> set pending \<Longrightarrow> ?P t"
    using assms(1) pops_op_symbols by auto
  have stop: "operators = [] \<or> \<not> ?P (hd operators)"
    using ready_stops [OF assms(2)] .
  have t: "takeWhile ?P (pending @ operators) = pending"
    using all stop by (simp add: takeWhile_append2 takeWhile_stop)
  have d: "dropWhile ?P (pending @ operators) = operators"
    using all stop by (simp add: dropWhile_append2 dropWhile_stop)
  have known: "\<forall>t \<in> set (pending @ operators). t = ''('' \<or> count operatorPrecedence t"
    using assms(1,3) count_op_symbol by auto
  have "fst (pop_operators operatorPrecedence (op_symbol op) (pending @ operators) out) =
        operatorPrecedence"
    using pop_operators_table [OF count_op_symbol known] .
  moreover have "snd (pop_operators operatorPrecedence (op_symbol op) (pending @ operators) out) =
        (operators, out @ pending)"
    by (simp add: pop_operators_stack_output t d)
  ultimately show ?thesis by (simp add: prod_eq_iff)
qed

lemma pop_until_paren_pending:
  "''('' \<notin> set pending \<Longrightarrow>
   pop_until_paren (pending @ ''('' # operators) out = (''('' # operators, out @ pending)"
  by (induction pending arbitrary: out) auto

lemma convert_loop_tokens_of:
  "well_formed e \<Longrightarrow> ready (binding e) operators \<Longrightarrow>
   \<forall>t \<in> set operators. t = ''('' \<or> count operatorPrecedence t \<Longrightarrow>
   \<exists>pending out'.
     convert_loop operatorPrecedence (tokens_of e) operators out =
       (operatorPrecedence, pending @ operators, out') \<and>
     out' @ pending = out @ postfix_of e \<and>
     (\<forall>t \<in> set pending. \<exists>op. t = op_symbol op \<and> binding e \<le> op_level op)"
proof (induction e arbitrary: operators out)
  case (Literal w1 ds w2)
  then obtain d ds' where "ds = d # ds'" "isdigit d" by (cases ds) auto
  then show ?case by (simp add: first_char_def)
next
  case (Parens w1 e w2)
  from Parens.prems(1) have e: "well_formed e" by simp
  have known: "\<forall>t \<in> set (''('' # operators). t = ''('' \<or> count operatorPrecedence t"
    using Parens.prems(3) by simp
  from Parens.IH [OF e ready_paren known, of out]
  obtain pending out' where p:
      "convert_loop operatorPrecedence (tokens_of e) (''('' # operators) out =
         (operatorPrecedence, pending @ ''('' # operators, out')"
      "out' @ pending = out @ postfix_of e"
      "\<forall>t \<in> set pending. \<exists>op. t = op_symbol op \<and> binding e \<le> op_level op"
    by blast
  have np: "''('' \<notin> set pending"
  proof
    assume "''('' \<in> set pending"
    with p(3) obtain op where "''('' = op_symbol op" by blast
    then show False using op_symbol_not_paren [of op] by simp
  qed
  have "convert_loop operatorPrecedence (tokens_of (Parens w1 e w2)) operators out =
        convert_loop operatorPrecedence (tokens_of e @ ['')'']) (''('' # operators) out"
    by (simp add: first_char_def isdigit_def)
  also have "\<dots> = convert_loop operatorPrecedence ['')''] (pending @ ''('' # operators) out'"
    by (simp add: convert_loop_append p(1))
  also have "\<dots> = (operatorPrecedence, operators, out' @ pending)"
    by (simp add: first_char_def isdigit_def pop_until_paren_pending [OF np])
  finally show ?case using p(2) by simp
next
  case (Binary a op b)
  from Binary.prems(1) have wf: "well_formed a" "well_formed b"
      and lv: "op_level op \<le> binding a" "op_level op < binding b"
    by simp_all
  from Binary.prems(2) have r: "ready (op_level op) operators" by simp
  from Binary.IH(1) [OF wf(1) ready_mono [OF r lv(1)] Binary.prems(3), of out]
  obtain pa outa where a:
      "convert_loop operatorPrecedence (tokens_of a) operators out =
         (operatorPrecedence, pa @ operators, outa)"
      "outa @ pa = out @ postfix_of a"
      "\<forall>t \<in> set pa. \<exists>op'. t = op_symbol op' \<and> binding a \<le> op_level op'"
    by blast
  have pa: "\<forall>t \<in> set pa. \<exists>op'. t = op_symbol op' \<and> op_level op \<le> op_level op'"
    using a(3) lv(1) by (meson le_trans)
  have known: "\<forall>t \<in> set (op_symbol op # operators). t = ''('' \<or> count operatorPrecedence t"
    using Binary.prems(3) count_op_symbol by simp
  from Binary.IH(2) [OF wf(2) ready_op [OF lv(2)] known, of "outa @ pa"]
  obtain pb outb where b:
      "convert_loop operatorPrecedence (tokens_of b) (op_symbol op # operators) (outa @ pa) =
         (operatorPrecedence, pb @ op_symbol op # operators, outb)"
      "outb @ pb = (outa @ pa) @ postfix_of b"
      "\<forall>t \<in> set pb. \<exists>op'. t = op_symbol op' \<and> binding b \<le> op_level op'"
    by blast
  have step: "convert_loop operatorPrecedence (op_symbol op # tokens_of b) (pa @ operators) outa =
        convert_loop operatorPrecedence (tokens_of b) (op_symbol op # operators) (outa @ pa)"
    using op_symbol_not_paren [of op]
    by (simp add: pop_operators_pending [OF pa r Binary.prems(3)] Let_def)
  have "convert_loop operatorPrecedence (tokens_of (Binary a op b)) operators out =
        convert_loop operatorPrecedence (op_symbol op # tokens_of b) (pa @ operators) outa"
    by (simp add: convert_loop_append a(1) del: convert_loop.simps)
  also have "\<dots> = (operatorPrecedence, (pb @ [op_symbol op]) @ operators, outb)"
    by (simp only: step b(1) append.assoc append.simps)
  finally have "convert_loop operatorPrecedence (tokens_of (Binary a op b)) operators out =
        (operatorPrecedence, (pb @ [op_symbol op]) @ operators, outb)" .
  moreover have "outb @ pb @ [op_symbol op] = out @ postfix_of (Binary a op b)"
    using a(2) b(2) by simp
  moreover have "\<forall>t \<in> set (pb @ [op_symbol op]).
      \<exists>op'. t = op_symbol op' \<and> binding (Binary a op b) \<le> op_level op'"
  proof
    fix t
    assume "t \<in> set (pb @ [op_symbol op])"
    then consider "t \<in> set pb" | "t = op_symbol op" by auto
    then show "\<exists>op'. t = op_symbol op' \<and> binding (Binary a op b) \<le> op_level op'"
    proof cases
      case 1
      with b(3) obtain op' where "t = op_symbol op'" "binding b \<le> op_level op'" by blast
      with lv(2) show ?thesis by (intro exI [of _ op']) simp
    next
      case 2
      then show ?thesis by (intro exI [of _ op]) simp
    qed
  qed
  ultimately show ?case by (metis append.assoc)
qed

lemma convertToPostfix_tokens_of:
  assumes "well_formed e"
  shows "convertToPostfix operatorPrecedence (tokens_of e) = (operatorPrecedence, postfix_of e)"
proof -
  from convert_loop_tokens_of [OF assms ready_Nil, of "[]"]
  obtain pending out' where
      "convert_loop operatorPrecedence (tokens_of e) [] [] = (operatorPrecedence, pending, out')"
      "out' @ pending = postfix_of e"
    by auto
  then show ?thesis
    by (simp add: convertToPostfix_def pop_remaining_append)
qed

lemma evaluate_render:
  assumes "well_formed e"
  shows "evaluate operatorPrecedence (render e) = (operatorPrecedence, outcome e)"
  by (simp add: evaluate_def tokenizeExpression_render [OF assms]
        validateTokenSequence_tokens_of [OF assms] convertToPostfix_tokens_of [OF assms]
        evaluatePostfixExpression_postfix_of [OF assms])

subsection \<open>Arithmetic expressions: the result\<close>

text \<open>
  Claim C4: for every well-formed expression over unsigned integer literals, the binary
  operators \<open>+ - * /\<close>, parentheses and whitespace, whose literals and intermediate
  values are \<open>int\<close>s and whose value in standard arithmetic (precedence, left to right,
  division truncated towards zero) exists, \<open>evaluate\<close> on a fresh evaluator returns that
  value and leaves the operator table as it was; and \<open>evaluate("1 + 2 * 3")\<close> returns
  \<open>7\<close>.
\<close>

theorem arithmetic_evaluation:
  assumes "well_formed e" "within_int e" "standard_value e = Some v"
  shows "evaluate operatorPrecedence (render e) = (operatorPrecedence, Inr v) \<and>
         snd (evaluate operatorPrecedence ''1 + 2 * 3'') = Inr 7"
proof -
  have "evaluate operatorPrecedence (render e) = (operatorPrecedence, outcome e)"
    using assms(1) by (rule evaluate_render)
  moreover have "outcome e = Inr v"
    using assms by (rule outcome_standard_value)
  moreover have "snd (evaluate operatorPrecedence ''1 + 2 * 3'') = Inr 7"
    by code_simp
  ultimately show ?thesis by simp
qed

theorem arithmetic_evaluation_witness:
  "render (Binary (Binary (Literal '' '' ''20'' '' '') OpSub (Literal [] ''3'' []))
             OpSub
             (Binary (Parens '' '' (Binary (Literal [] ''1'' []) OpSub (Literal [] ''8'' [])) [])
                OpDiv (Literal [] ''2'' ''  ''))) = '' 20 -3- (1-8)/2  '' \<and>
   evaluate operatorPrecedence '' 20 -3- (1-8)/2  '' = (operatorPrecedence, Inr 20)"
proof -
  let ?e = "Binary (Binary (Literal '' '' ''20'' '' '') OpSub (Literal [] ''3'' []))
             OpSub
             (Binary (Parens '' '' (Binary (Literal [] ''1'' []) OpSub (Literal [] ''8'' [])) [])
                OpDiv (Literal [] ''2'' ''  ''))"
  have r: "render ?e = '' 20 -3- (1-8)/2  ''" by simp
  have w: "well_formed ?e" by (simp add: isspace_def isdigit_def)
  have v: "standard_value ?e = Some 20" by code_simp
  have i: "within_int ?e" by code_simp
  from arithmetic_evaluation [OF w i v] r show ?thesis by simp
qed

end
